theory Spec2Isabelle
  imports Complex_Main "HOL-Library.AList"
begin

section \<open>Python values that flow through \<^verbatim>\<open>persist_lines\<close>\<close>

text \<open>
  A value decoded by \<^verbatim>\<open>json.loads\<close>. Python's \<^verbatim>\<open>None\<close> is \<open>JNull\<close>; an
  \<^verbatim>\<open>int\<close> is unbounded; a finite \<^verbatim>\<open>float\<close> is the rational it denotes (Python
  compares and hashes numbers by value); a \<^verbatim>\<open>str\<close> is its UTF-8 byte sequence;
  a \<^verbatim>\<open>dict\<close> is an association list with distinct keys in insertion order.
\<close>

datatype json =
    JNull
  | JBool bool
  | JInt int
  | JFloat rat
  | JNaN
  | JInfinity
  | JNegInfinity
  | JStr string
  | JArr "json list"
  | JObj "(string \<times> json) list"

text \<open>
  The texts of the \<^verbatim>\<open>raise Exception("...")\<close> statements of \<^verbatim>\<open>persist_lines\<close>,
  by line of the source: 56, 61 and 87, 63, 92, 95.
\<close>

datatype message =
    Line_is_missing_required_key_type
  | Line_is_missing_required_key_stream
  | Record_encountered_before_schema
  | Key_properties_field_is_required
  | Unknown_message_type

datatype error =
    JSONDecodeError
  | TypeError
  | KeyError json
  | UnboundLocalError
  | Exception message
  | ValidationError
  | OtherError string

text \<open>
  The key under which a value is found in a Python \<^verbatim>\<open>dict\<close>: equal numbers are one
  key (\<^verbatim>\<open>1\<close>, \<^verbatim>\<open>1.0\<close> and \<^verbatim>\<open>True\<close>), lists and dicts are unhashable.
  \<^verbatim>\<open>json.loads\<close> returns one shared object for every \<^verbatim>\<open>NaN\<close>, which a dict finds
  by identity.
\<close>

datatype key = KNone | KNum rat | KNaN | KInfinity | KNegInfinity | KStr string

fun py_hash :: "json \<Rightarrow> key option" where
  "py_hash JNull = Some KNone"
| "py_hash (JBool b) = Some (KNum (if b then 1 else 0))"
| "py_hash (JInt i) = Some (KNum (of_int i))"
| "py_hash (JFloat r) = Some (KNum r)"
| "py_hash JNaN = Some KNaN"
| "py_hash JInfinity = Some KInfinity"
| "py_hash JNegInfinity = Some KNegInfinity"
| "py_hash (JStr s) = Some (KStr s)"
| "py_hash (JArr xs) = None"
| "py_hash (JObj kvs) = None"

fun startswith :: "string \<Rightarrow> string \<Rightarrow> bool" where
  "startswith s [] = True"
| "startswith [] (c # cs) = False"
| "startswith (x # xs) (c # cs) = (x = c \<and> startswith xs cs)"

fun str_contains :: "string \<Rightarrow> string \<Rightarrow> bool" where
  "str_contains [] sub = (sub = [])"
| "str_contains (x # xs) sub = (startswith (x # xs) sub \<or> str_contains xs sub)"

text \<open>
  \<^verbatim>\<open>k in o\<close> for a string \<open>k\<close>: key test on a dict, element test on a list,
  substring test on a string, \<^verbatim>\<open>TypeError\<close> on anything else.
\<close>

fun py_in :: "string \<Rightarrow> json \<Rightarrow> error + bool" where
  "py_in k (JObj kvs) = Inr (map_of kvs k \<noteq> None)"
| "py_in k (JArr xs) = Inr (JStr k \<in> set xs)"
| "py_in k (JStr s) = Inr (str_contains s k)"
| "py_in k v = Inl TypeError"

text \<open>\<^verbatim>\<open>o[k]\<close> for a string \<open>k\<close>: only a dict can be indexed by a string.\<close>

fun py_getitem :: "json \<Rightarrow> string \<Rightarrow> error + json" where
  "py_getitem (JObj kvs) k =
     (case map_of kvs k of None \<Rightarrow> Inl (KeyError (JStr k)) | Some v \<Rightarrow> Inr v)"
| "py_getitem v k = Inl TypeError"

text \<open>
  \<^verbatim>\<open>batch_size > max_batch_size\<close>, the left side being an \<^verbatim>\<open>int\<close> and the
  right side whatever the configuration holds.
\<close>

fun py_gt :: "int \<Rightarrow> json \<Rightarrow> error + bool" where
  "py_gt n (JInt m) = Inr (n > m)"
| "py_gt n (JBool b) = Inr (n > (if b then 1 else 0))"
| "py_gt n (JFloat r) = Inr (of_int n > r)"
| "py_gt n JNaN = Inr False"
| "py_gt n JInfinity = Inr False"
| "py_gt n JNegInfinity = Inr True"
| "py_gt n v = Inl TypeError"

section \<open>Configuration, batches and the outside world\<close>

type_synonym config = "(string \<times> json) list"

text \<open>\<^verbatim>\<open>config.get(k, default)\<close>\<close>

definition config_get :: "config \<Rightarrow> string \<Rightarrow> json \<Rightarrow> json" where
  "config_get config k d = (case map_of config k of None \<Rightarrow> d | Some v \<Rightarrow> v)"

text \<open>
  One element of \<^verbatim>\<open>messages\<close> (source line 76), with the dict keys
  \<^verbatim>\<open>'action'\<close>, \<^verbatim>\<open>'data'\<close> and \<^verbatim>\<open>'sequence'\<close>.
\<close>

record operation =
  action :: string
  record_data :: json
  sequence :: int

text \<open>
  The dict built at source lines 100 and 108, with the keys \<^verbatim>\<open>'schema'\<close>,
  \<^verbatim>\<open>'table_name'\<close> and \<^verbatim>\<open>'messages'\<close>.
\<close>

record batch =
  batch_schema :: json
  table_name :: json
  batch_messages :: "operation list"

text \<open>What \<^verbatim>\<open>post_data\<close> hands to \<^verbatim>\<open>connection.request\<close>.\<close>

record http_request =
  host :: json
  path :: json
  authorization :: string
  body :: batch

text \<open>
  A line written to standard output: the two \<^verbatim>\<open>print\<close> calls (source lines 99
  and 120) and the line of \<^verbatim>\<open>emit_state\<close>, which is \<^verbatim>\<open>json.dumps\<close> of the value.
\<close>

datatype stdout_line = Sending_batch int | Response_body string | State_line json

text \<open>
  What the program calls but does not define. \<open>scan_once\<close> is the value scanner of
  the \<^verbatim>\<open>json\<close> module (\<open>None\<close> when it raises \<^verbatim>\<open>JSONDecodeError\<close>);
  \<open>Draft4Validator\<close> is the constructor of the validator (the exception it raises, if
  any; the validator is then the schema it was given) and \<open>validate\<close> its method;
  \<open>time_time k\<close> is \<^verbatim>\<open>int(time.time())\<close> at the \<open>k\<close>-th call; \<open>HTTPSConnection\<close> is
  the constructor of the connection and \<open>getresponse k\<close> the exchange of the \<open>k\<close>-th
  request: the decoded response body, or the exception of the transport.
\<close>

record env =
  scan_once :: "string \<Rightarrow> json option"
  Draft4Validator :: "json \<Rightarrow> error option"
  validate :: "json \<Rightarrow> json \<Rightarrow> error option"
  time_time :: "nat \<Rightarrow> int"
  HTTPSConnection :: "json \<Rightarrow> error option"
  getresponse :: "nat \<Rightarrow> http_request \<Rightarrow> error + string"

text \<open>
  The local variables of \<^verbatim>\<open>persist_lines\<close> (source lines 37 to 46; \<open>schema\<close> is
  unbound until the first record is accepted; \<open>data\<close> is the batch built last, the
  empty dict of line 41 being \<open>None\<close>), and what the run has done to the world: the
  number of calls of \<^verbatim>\<open>time.time\<close>, the requests handed to the connection and the
  lines printed.
\<close>

record run_state =
  state :: json
  schemas :: "(key \<times> json) list"
  key_properties :: "(key \<times> json) list"
  validators :: "(key \<times> json) list"
  data :: "batch option"
  batch_size :: int
  number_of_the_current_batch :: int
  messages :: "operation list"
  timestamp :: int
  schema :: "json option"
  time_calls :: nat
  requests :: "http_request list"
  stdout :: "stdout_line list"

section \<open>The program\<close>

text \<open>
  \<^verbatim>\<open>json.loads(line)\<close>: the decoder skips the whitespace of JSON (space, tab, line
  feed, carriage return), raises \<^verbatim>\<open>JSONDecodeError\<close> when nothing is left or when the
  next character cannot start a value (a quote, a bracket, a brace, a digit, a minus
  sign, or the first letter of \<^verbatim>\<open>null\<close>, \<^verbatim>\<open>true\<close>, \<^verbatim>\<open>false\<close>, \<^verbatim>\<open>NaN\<close>,
  \<^verbatim>\<open>Infinity\<close>), and otherwise scans one value, which must be followed by
  whitespace only.
\<close>

definition json_whitespace :: "char \<Rightarrow> bool" where
  "json_whitespace c = (c \<in> set [CHR '' '', CHR 0x09, CHR 0x0A, CHR 0x0D])"

definition value_start :: "char \<Rightarrow> bool" where
  "value_start c = (c \<in> set ([CHR 0x22] @ ''{[ntfNI-0123456789''))"

definition json_loads :: "env \<Rightarrow> string \<Rightarrow> error + json" where
  "json_loads e line =
     (case dropWhile json_whitespace line of
        [] \<Rightarrow> Inl JSONDecodeError
      | c # cs \<Rightarrow>
          if \<not> value_start c then Inl JSONDecodeError
          else (case scan_once e (c # cs) of
                  None \<Rightarrow> Inl JSONDecodeError
                | Some v \<Rightarrow> Inr v))"

text \<open>\<^verbatim>\<open>post_data(config, data)\<close>, source lines 114 to 120.\<close>

definition post_data ::
  "env \<Rightarrow> config \<Rightarrow> batch \<Rightarrow> run_state \<Rightarrow> (error \<times> run_state) + run_state" where
  "post_data e config d st =
     (let h = config_get config ''region_url'' (JStr '''') in
      case HTTPSConnection e h of
        Some err \<Rightarrow> Inl (err, st)
      | None \<Rightarrow>
          (case config_get config ''token'' (JStr '''') of
             JStr tok \<Rightarrow>
               (let req = \<lparr>host = h,
                           path = config_get config ''batch_api_path'' (JStr ''''),
                           authorization = ''Bearer '' @ tok,
                           body = d\<rparr>;
                    st1 = st\<lparr>requests := requests st @ [req]\<rparr>
                in case getresponse e (length (requests st)) req of
                     Inl err \<Rightarrow> Inl (err, st1)
                   | Inr text \<Rightarrow> Inr (st1\<lparr>stdout := stdout st1 @ [Response_body text]\<rparr>))
           | _ \<Rightarrow> Inl (TypeError, st)))"

text \<open>The \<^verbatim>\<open>RECORD\<close> branch, source lines 60 to 81.\<close>

definition handle_RECORD ::
  "env \<Rightarrow> json \<Rightarrow> run_state \<Rightarrow> (error \<times> run_state) + run_state" where
  "handle_RECORD e o_line st =
     (case py_in ''stream'' o_line of
        Inl err \<Rightarrow> Inl (err, st)
      | Inr has_stream \<Rightarrow>
          if \<not> has_stream then Inl (Exception Line_is_missing_required_key_stream, st)
          else (case py_getitem o_line ''stream'' of
            Inl err \<Rightarrow> Inl (err, st)
          | Inr s \<Rightarrow>
              (case py_hash s of
                 None \<Rightarrow> Inl (TypeError, st)
               | Some k \<Rightarrow>
                   (case map_of (schemas st) k of
                      None \<Rightarrow> Inl (Exception Record_encountered_before_schema, st)
                    | Some sch \<Rightarrow>
                        (let st1 = st\<lparr>schema := Some sch\<rparr> in
                         case map_of (validators st1) k of
                           None \<Rightarrow> Inl (KeyError s, st1)
                         | Some v \<Rightarrow>
                             (case py_getitem o_line ''record'' of
                                Inl err \<Rightarrow> Inl (err, st1)
                              | Inr r \<Rightarrow>
                                  (case validate e v r of
                                     Some err \<Rightarrow> Inl (err, st1)
                                   | None \<Rightarrow>
                                       (let n = batch_size st1 + 1 in
                                        Inr (st1\<lparr>batch_size := n,
                                                 messages := messages st1 @
                                                   [\<lparr>action = ''upsert'', record_data = r,
                                                     sequence = timestamp st1 + n\<rparr>],
                                                 state := JNull\<rparr>)))))))))"

text \<open>The \<^verbatim>\<open>STATE\<close> branch, source lines 83 and 84.\<close>

definition handle_STATE :: "json \<Rightarrow> run_state \<Rightarrow> (error \<times> run_state) + run_state" where
  "handle_STATE o_line st =
     (case py_getitem o_line ''value'' of
        Inl err \<Rightarrow> Inl (err, st)
      | Inr v \<Rightarrow> Inr (st\<lparr>state := v\<rparr>))"

text \<open>The \<^verbatim>\<open>SCHEMA\<close> branch, source lines 86 to 93.\<close>

definition handle_SCHEMA ::
  "env \<Rightarrow> json \<Rightarrow> run_state \<Rightarrow> (error \<times> run_state) + run_state" where
  "handle_SCHEMA e o_line st =
     (case py_in ''stream'' o_line of
        Inl err \<Rightarrow> Inl (err, st)
      | Inr has_stream \<Rightarrow>
          if \<not> has_stream then Inl (Exception Line_is_missing_required_key_stream, st)
          else (case py_getitem o_line ''stream'' of
            Inl err \<Rightarrow> Inl (err, st)
          | Inr stream \<Rightarrow>
              (case py_getitem o_line ''schema'' of
                 Inl err \<Rightarrow> Inl (err, st)
               | Inr sch \<Rightarrow>
                   (case py_hash stream of
                      None \<Rightarrow> Inl (TypeError, st)
                    | Some k \<Rightarrow>
                        (let st1 = st\<lparr>schemas := AList.update k sch (schemas st)\<rparr> in
                         case Draft4Validator e sch of
                           Some err \<Rightarrow> Inl (err, st1)
                         | None \<Rightarrow>
                             (let st2 = st1\<lparr>validators := AList.update k sch (validators st1)\<rparr> in
                              case py_in ''key_properties'' o_line of
                                Inl err \<Rightarrow> Inl (err, st2)
                              | Inr has_kp \<Rightarrow>
                                  if \<not> has_kp
                                  then Inl (Exception Key_properties_field_is_required, st2)
                                  else (case py_getitem o_line ''key_properties'' of
                                    Inl err \<Rightarrow> Inl (err, st2)
                                  | Inr kp \<Rightarrow>
                                      Inr (st2\<lparr>key_properties :=
                                                 AList.update k kp (key_properties st2)\<rparr>))))))))"

text \<open>
  Source lines 49 to 96: decode the line, require \<^verbatim>\<open>'type'\<close>, and run the branch of
  the message type.
\<close>

definition dispatch ::
  "env \<Rightarrow> run_state \<Rightarrow> string \<Rightarrow> (error \<times> run_state) + run_state" where
  "dispatch e st line =
     (case json_loads e line of
        Inl err \<Rightarrow> Inl (err, st)
      | Inr o_line \<Rightarrow>
          (case py_in ''type'' o_line of
             Inl err \<Rightarrow> Inl (err, st)
           | Inr has_type \<Rightarrow>
               if \<not> has_type then Inl (Exception Line_is_missing_required_key_type, st)
               else (case py_getitem o_line ''type'' of
                 Inl err \<Rightarrow> Inl (err, st)
               | Inr t \<Rightarrow>
                   if t = JStr ''RECORD'' then handle_RECORD e o_line st
                   else if t = JStr ''STATE'' then handle_STATE o_line st
                   else if t = JStr ''SCHEMA'' then handle_SCHEMA e o_line st
                   else Inl (Exception Unknown_message_type, st))))"

text \<open>Source lines 98 to 105: the check that follows every line, and the flush.\<close>

definition threshold_check ::
  "env \<Rightarrow> config \<Rightarrow> json \<Rightarrow> run_state \<Rightarrow> (error \<times> run_state) + run_state" where
  "threshold_check e config max_batch_size st =
     (case py_gt (batch_size st) max_batch_size of
        Inl err \<Rightarrow> Inl (err, st)
      | Inr exceeded \<Rightarrow>
          if \<not> exceeded then Inr st
          else
            (let st1 = st\<lparr>stdout := stdout st @
                            [Sending_batch (number_of_the_current_batch st)]\<rparr> in
             case schema st1 of
               None \<Rightarrow> Inl (UnboundLocalError, st1)
             | Some sch \<Rightarrow>
                 (let d = \<lparr>batch_schema = sch,
                           table_name = config_get config ''table_name'' (JStr ''''),
                           batch_messages = messages st1\<rparr>
                  in case post_data e config d (st1\<lparr>data := Some d\<rparr>) of
                       Inl err \<Rightarrow> Inl err
                     | Inr st2 \<Rightarrow>
                         Inr (st2\<lparr>messages := [],
                                  timestamp := time_time e (time_calls st2),
                                  time_calls := Suc (time_calls st2),
                                  number_of_the_current_batch :=
                                    number_of_the_current_batch st2 + 1,
                                  batch_size := 0\<rparr>))))"

text \<open>One iteration of the loop over the lines, source lines 48 to 105.\<close>

definition iteration ::
  "env \<Rightarrow> config \<Rightarrow> json \<Rightarrow> run_state \<Rightarrow> string \<Rightarrow> (error \<times> run_state) + run_state" where
  "iteration e config max_batch_size st line =
     (case dispatch e st line of
        Inl err \<Rightarrow> Inl err
      | Inr st1 \<Rightarrow> threshold_check e config max_batch_size st1)"

fun loop ::
  "env \<Rightarrow> config \<Rightarrow> json \<Rightarrow> run_state \<Rightarrow> string list \<Rightarrow> (error \<times> run_state) + run_state"
  where
  "loop e config max_batch_size st [] = Inr st"
| "loop e config max_batch_size st (line # lines) =
     (case iteration e config max_batch_size st line of
        Inl err \<Rightarrow> Inl err
      | Inr st1 \<Rightarrow> loop e config max_batch_size st1 lines)"

text \<open>Source lines 37 to 46.\<close>

definition initial :: "env \<Rightarrow> run_state" where
  "initial e =
     \<lparr>state = JNull, schemas = [], key_properties = [], validators = [], data = None,
      batch_size = 0, number_of_the_current_batch = 1, messages = [],
      timestamp = time_time e 0, schema = None,
      time_calls = 1, requests = [], stdout = []\<rparr>"

text \<open>Source lines 107 to 111: the flush at the end of the input, and the result.\<close>

definition final_flush ::
  "env \<Rightarrow> config \<Rightarrow> run_state \<Rightarrow> (error \<times> run_state) + (json \<times> run_state)" where
  "final_flush e config st =
     (if length (messages st) > 0 then
        (case schema st of
           None \<Rightarrow> Inl (UnboundLocalError, st)
         | Some sch \<Rightarrow>
             (let d = \<lparr>batch_schema = sch,
                       table_name = config_get config ''table_name'' (JStr ''''),
                       batch_messages = messages st\<rparr>
              in case post_data e config d (st\<lparr>data := Some d\<rparr>) of
                   Inl err \<Rightarrow> Inl err
                 | Inr st1 \<Rightarrow> Inr (state st1, st1)))
      else Inr (state st, st))"

text \<open>
  \<^verbatim>\<open>persist_lines(config, lines)\<close>: the exception and the state at the raise, or the
  returned value and the final state.
\<close>

definition persist_lines ::
  "env \<Rightarrow> config \<Rightarrow> string list \<Rightarrow> (error \<times> run_state) + (json \<times> run_state)" where
  "persist_lines e config lines =
     (case loop e config (config_get config ''batch_size'' (JInt 1000)) (initial e) lines of
        Inl err \<Rightarrow> Inl err
      | Inr st \<Rightarrow> final_flush e config st)"

text \<open>\<^verbatim>\<open>emit_state(state)\<close>, source lines 19 to 24: the lines it writes.\<close>

definition emit_state :: "json \<Rightarrow> stdout_line list" where
  "emit_state st_value = (if st_value \<noteq> JNull then [State_line st_value] else [])"

text \<open>
  \<^verbatim>\<open>main()\<close> from source line 167 on, for a resolved configuration: everything
  written to standard output by the process, or the exception that ends it.
\<close>

definition main :: "env \<Rightarrow> config \<Rightarrow> string list \<Rightarrow> (error \<times> run_state) + stdout_line list" where
  "main e config lines =
     (case persist_lines e config lines of
        Inl err \<Rightarrow> Inl err
      | Inr (st_value, st) \<Rightarrow> Inr (stdout st @ emit_state st_value))"

section \<open>Vocabulary of the properties\<close>

text \<open>What a run ends with: the exception, if any, and the state it leaves.\<close>

definition raised :: "(error \<times> run_state) + (json \<times> run_state) \<Rightarrow> error option" where
  "raised res = (case res of Inl (err, st) \<Rightarrow> Some err | Inr (v, st) \<Rightarrow> None)"

definition final_state :: "(error \<times> run_state) + (json \<times> run_state) \<Rightarrow> run_state" where
  "final_state res = (case res of Inl (err, st) \<Rightarrow> st | Inr (v, st) \<Rightarrow> st)"

text \<open>
  The state after the lines \<open>pre\<close> have been processed, when none of them raised:
  the loop of \<^verbatim>\<open>persist_lines\<close> run on \<open>pre\<close> from the initial state.
\<close>

definition after_lines :: "env \<Rightarrow> config \<Rightarrow> string list \<Rightarrow> (error \<times> run_state) + run_state" where
  "after_lines e config pre =
     loop e config (config_get config ''batch_size'' (JInt 1000)) (initial e) pre"

text \<open>
  A window of operations is numbered from a base when its \<open>n\<close>-th operation, counted
  from one, has the sequence number \<open>base + n\<close>.
\<close>

definition numbered_from :: "int \<Rightarrow> operation list \<Rightarrow> bool" where
  "numbered_from base ops = (map sequence ops = map (\<lambda>n. base + int n) [1..<Suc (length ops)])"

text \<open>The operations of the \<open>k\<close>-th request of a run.\<close>

definition window :: "run_state \<Rightarrow> nat \<Rightarrow> operation list" where
  "window st k = batch_messages (body (requests st ! k))"

text \<open>The sequence numbers of every operation submitted during a run, in order.\<close>

definition submitted_sequences :: "run_state \<Rightarrow> int list" where
  "submitted_sequences st = concat (map (\<lambda>req. map sequence (batch_messages (body req))) (requests st))"

text \<open>
  The counter and the pending operations agree, the pending window and every
  submitted window are numbered from their base timestamps, and the clock has been
  read once at the start and once after each request.
\<close>

definition window_inv :: "env \<Rightarrow> run_state \<Rightarrow> bool" where
  "window_inv e st =
     (batch_size st = int (length (messages st)) \<and>
      numbered_from (timestamp st) (messages st) \<and>
      time_calls st = Suc (length (requests st)) \<and>
      timestamp st = time_time e (length (requests st)) \<and>
      (\<forall>k<length (requests st). numbered_from (time_time e k) (window st k)))"

text \<open>
  Characters for which \<^verbatim>\<open>str.isspace\<close> holds, among the ASCII characters: tab, line
  feed, vertical tab, form feed, carriage return, the four separators and space.
\<close>

definition py_isspace :: "char \<Rightarrow> bool" where
  "py_isspace c =
     (c \<in> set [CHR 0x09, CHR 0x0A, CHR 0x0B, CHR 0x0C, CHR 0x0D,
                CHR 0x1C, CHR 0x1D, CHR 0x1E, CHR 0x1F, CHR '' ''])"

text \<open>
  The \<^verbatim>\<open>'type'\<close> of the message on a line and, for a \<^verbatim>\<open>STATE\<close> message, its
  \<^verbatim>\<open>'value'\<close>.
\<close>

definition message_type :: "env \<Rightarrow> string \<Rightarrow> json option" where
  "message_type e line =
     (case json_loads e line of
        Inl err \<Rightarrow> None
      | Inr v \<Rightarrow> (case py_getitem v ''type'' of Inl err \<Rightarrow> None | Inr t \<Rightarrow> Some t))"

definition message_value :: "env \<Rightarrow> string \<Rightarrow> json" where
  "message_value e line =
     (case json_loads e line of
        Inl err \<Rightarrow> JNull
      | Inr v \<Rightarrow> (case py_getitem v ''value'' of Inl err \<Rightarrow> JNull | Inr x \<Rightarrow> x))"

text \<open>
  The specification's checkpoint of an input: among the \<^verbatim>\<open>RECORD\<close> and \<^verbatim>\<open>STATE\<close>
  messages, the last one decides; a \<^verbatim>\<open>STATE\<close> gives its value, a \<^verbatim>\<open>RECORD\<close> or no
  such message at all gives none.
\<close>

definition state_affecting :: "env \<Rightarrow> string \<Rightarrow> bool" where
  "state_affecting e line =
     (message_type e line = Some (JStr ''RECORD'') \<or> message_type e line = Some (JStr ''STATE''))"

definition most_recent_checkpoint :: "env \<Rightarrow> string list \<Rightarrow> json" where
  "most_recent_checkpoint e lines =
     (case rev (filter (state_affecting e) lines) of
        [] \<Rightarrow> JNull
      | l # ls \<Rightarrow> if message_type e l = Some (JStr ''STATE'') then message_value e l else JNull)"

definition checkpoint_lines :: "stdout_line list \<Rightarrow> stdout_line list" where
  "checkpoint_lines out = filter (\<lambda>l. case l of State_line v \<Rightarrow> True | _ \<Rightarrow> False) out"

text \<open>A line declares a stream when it is a \<^verbatim>\<open>SCHEMA\<close> message naming it.\<close>

definition declares :: "env \<Rightarrow> key \<Rightarrow> string \<Rightarrow> bool" where
  "declares e k line =
     (case json_loads e line of
        Inl err \<Rightarrow> False
      | Inr v \<Rightarrow>
          py_getitem v ''type'' = Inr (JStr ''SCHEMA'') \<and>
          (case py_getitem v ''stream'' of Inl err \<Rightarrow> False | Inr s \<Rightarrow> py_hash s = Some k))"

text \<open>
  A line is a complete \<^verbatim>\<open>SCHEMA\<close> declaration of a stream, with its schema and
  its key properties, whose validator is constructed without an exception; a line is
  a \<^verbatim>\<open>RECORD\<close> of a stream that is valid for a schema.
\<close>

definition schema_message :: "env \<Rightarrow> string \<Rightarrow> key \<Rightarrow> json \<Rightarrow> json \<Rightarrow> bool" where
  "schema_message e line k sch kp =
     (case json_loads e line of
        Inl err \<Rightarrow> False
      | Inr v \<Rightarrow>
          py_getitem v ''type'' = Inr (JStr ''SCHEMA'') \<and>
          (case py_getitem v ''stream'' of Inl err \<Rightarrow> False | Inr s \<Rightarrow> py_hash s = Some k) \<and>
          py_getitem v ''schema'' = Inr sch \<and>
          py_getitem v ''key_properties'' = Inr kp \<and>
          Draft4Validator e sch = None)"

definition valid_record_message :: "env \<Rightarrow> string \<Rightarrow> key \<Rightarrow> json \<Rightarrow> json \<Rightarrow> bool" where
  "valid_record_message e line k sch r =
     (case json_loads e line of
        Inl err \<Rightarrow> False
      | Inr v \<Rightarrow>
          py_getitem v ''type'' = Inr (JStr ''RECORD'') \<and>
          (case py_getitem v ''stream'' of Inl err \<Rightarrow> False | Inr s \<Rightarrow> py_hash s = Some k) \<and>
          py_getitem v ''record'' = Inr r \<and>
          validate e sch r = None)"

section \<open>An environment and an input for the examples\<close>

definition schema_line :: string where
  \<open>schema_line =
     ''{"type": "SCHEMA", "stream": "users", "schema": {}, "key_properties": ["id"]}''\<close>

definition record_line_1 :: string where
  \<open>record_line_1 = ''{"type": "RECORD", "stream": "users", "record": {"id": 1}}''\<close>

definition record_line_2 :: string where
  \<open>record_line_2 = ''{"type": "RECORD", "stream": "users", "record": {"id": 2}}''\<close>

definition record_line_3 :: string where
  \<open>record_line_3 = ''{"type": "RECORD", "stream": "users", "record": {"id": 3}}''\<close>

definition state_line :: string where
  \<open>state_line = ''{"type": "STATE", "value": {"bookmark": 1}}''\<close>

definition orders_record_line :: string where
  \<open>orders_record_line = ''{"type": "RECORD", "stream": "orders", "record": {"id": 7}}''\<close>

definition record_line_without_record :: string where
  \<open>record_line_without_record = ''{"type": "RECORD", "stream": "users"}''\<close>

definition schema_line_without_key_properties :: string where
  \<open>schema_line_without_key_properties =
     ''{"type": "SCHEMA", "stream": "users", "schema": {}}''\<close>

definition schema_line_type_12 :: string where
  \<open>schema_line_type_12 =
     ''{"type": "SCHEMA", "stream": "users", "schema": {"type": 12}, "key_properties": ["id"]}''\<close>

definition schema_line_number :: string where
  \<open>schema_line_number =
     ''{"type": "SCHEMA", "stream": "users", "schema": 5, "key_properties": ["id"]}''\<close>

definition blank_line :: string where
  "blank_line = [CHR '' '', CHR 0x09, CHR 0x0A]"

text \<open>What \<^verbatim>\<open>json.loads\<close> returns for the lines above.\<close>

definition example_scan_once :: "string \<Rightarrow> json option" where
  "example_scan_once =
     map_of
      [(schema_line,
        JObj [(''type'', JStr ''SCHEMA''), (''stream'', JStr ''users''), (''schema'', JObj []),
              (''key_properties'', JArr [JStr ''id''])]),
       (record_line_1,
        JObj [(''type'', JStr ''RECORD''), (''stream'', JStr ''users''),
              (''record'', JObj [(''id'', JInt 1)])]),
       (record_line_2,
        JObj [(''type'', JStr ''RECORD''), (''stream'', JStr ''users''),
              (''record'', JObj [(''id'', JInt 2)])]),
       (record_line_3,
        JObj [(''type'', JStr ''RECORD''), (''stream'', JStr ''users''),
              (''record'', JObj [(''id'', JInt 3)])]),
       (state_line,
        JObj [(''type'', JStr ''STATE''), (''value'', JObj [(''bookmark'', JInt 1)])]),
       (orders_record_line,
        JObj [(''type'', JStr ''RECORD''), (''stream'', JStr ''orders''),
              (''record'', JObj [(''id'', JInt 7)])]),
       (record_line_without_record,
        JObj [(''type'', JStr ''RECORD''), (''stream'', JStr ''users'')]),
       (schema_line_without_key_properties,
        JObj [(''type'', JStr ''SCHEMA''), (''stream'', JStr ''users''), (''schema'', JObj [])]),
       (schema_line_type_12,
        JObj [(''type'', JStr ''SCHEMA''), (''stream'', JStr ''users''),
              (''schema'', JObj [(''type'', JInt 12)]),
              (''key_properties'', JArr [JStr ''id''])]),
       (schema_line_number,
        JObj [(''type'', JStr ''SCHEMA''), (''stream'', JStr ''users''), (''schema'', JInt 5),
              (''key_properties'', JArr [JStr ''id''])])]"

text \<open>
  The validator library on the schemas of the examples: the constructor stores a
  schema that is a dict without checking it against the meta-schema (that is the
  separate \<^verbatim>\<open>check_schema\<close>, which the program does not call), and on a schema that is
  not a dict it fails where it reads the schema's \<^verbatim>\<open>id\<close>; the empty schema accepts
  every instance, and no record is validated against another schema below.
\<close>

definition example_Draft4Validator :: "json \<Rightarrow> error option" where
  "example_Draft4Validator sch =
     (case sch of JObj kvs \<Rightarrow> None | _ \<Rightarrow> Some (OtherError ''AttributeError''))"

definition example_validate :: "json \<Rightarrow> json \<Rightarrow> error option" where
  "example_validate sch inst = (if sch = JObj [] then None else Some ValidationError)"

text \<open>
  A destination that answers every request, and a clock that advances by ten seconds
  between two readings.
\<close>

definition example_env :: env where
  "example_env =
     \<lparr>scan_once = example_scan_once,
      Draft4Validator = example_Draft4Validator,
      validate = example_validate,
      time_time = (\<lambda>k. 1500000000 + 10 * int k),
      HTTPSConnection = (\<lambda>h. None),
      getresponse = (\<lambda>k req. Inr ''OK'')\<rparr>"

text \<open>The same, with every flush finished within the second in which the run started.\<close>

definition fast_env :: env where
  "fast_env = example_env\<lparr>time_time := (\<lambda>k. 1500000000)\<rparr>"

definition example_config :: config where
  "example_config =
     [(''region_url'', JStr ''api.stitchdata.com''),
      (''batch_api_path'', JStr ''/v2/import/batch''),
      (''table_name'', JStr ''users''),
      (''batch_size'', JInt 1),
      (''token'', JStr ''secret'')]"

section \<open>How a successful step changes the state\<close>

subsection \<open>The loop, and the steps that return\<close>

lemma loop_append:
  "loop e config m st (xs @ ys) =
     (case loop e config m st xs of Inl err \<Rightarrow> Inl err | Inr st1 \<Rightarrow> loop e config m st1 ys)"
  by (induction xs arbitrary: st) (auto split: sum.splits)

lemma py_getitem_Inr: "py_getitem v k = Inr x \<Longrightarrow> \<exists>kvs. v = JObj kvs \<and> map_of kvs k = Some x"
  by (cases v) (auto split: option.splits)

lemma post_data_Inr:
  assumes "post_data e config d st = Inr st'"
  shows "(\<exists>req. requests st' = requests st @ [req] \<and> body req = d) \<and>
         (\<exists>text. stdout st' = stdout st @ [Response_body text]) \<and>
         st' = st\<lparr>requests := requests st', stdout := stdout st'\<rparr>"
  using assms unfolding post_data_def Let_def
  by (auto split: option.splits json.splits sum.splits)

lemma handle_RECORD_Inr:
  assumes "handle_RECORD e v st = Inr st'"
  shows "\<exists>kvs s k sch r. v = JObj kvs \<and> map_of kvs ''stream'' = Some s \<and> py_hash s = Some k \<and>
           map_of (schemas st) k = Some sch \<and> map_of kvs ''record'' = Some r \<and>
           st' = st\<lparr>schema := Some sch, batch_size := batch_size st + 1,
                     messages := messages st @
                       [\<lparr>action = ''upsert'', record_data = r,
                         sequence = timestamp st + (batch_size st + 1)\<rparr>],
                     state := JNull\<rparr>"
  using assms unfolding handle_RECORD_def Let_def
  by (auto split: sum.splits if_splits option.splits dest!: py_getitem_Inr)

lemma handle_STATE_Inr:
  assumes "handle_STATE v st = Inr st'"
  shows "\<exists>kvs x. v = JObj kvs \<and> map_of kvs ''value'' = Some x \<and> st' = st\<lparr>state := x\<rparr>"
  using assms unfolding handle_STATE_def
  by (auto split: sum.splits dest!: py_getitem_Inr)

lemma handle_SCHEMA_Inr:
  assumes "handle_SCHEMA e v st = Inr st'"
  shows "\<exists>kvs s k sch kp. v = JObj kvs \<and> map_of kvs ''stream'' = Some s \<and> py_hash s = Some k \<and>
           map_of kvs ''schema'' = Some sch \<and> map_of kvs ''key_properties'' = Some kp \<and>
           Draft4Validator e sch = None \<and>
           st' = st\<lparr>schemas := AList.update k sch (schemas st),
                     validators := AList.update k sch (validators st),
                     key_properties := AList.update k kp (key_properties st)\<rparr>"
  using assms unfolding handle_SCHEMA_def Let_def
  by (auto split: sum.splits if_splits option.splits dest!: py_getitem_Inr)

lemma threshold_check_Inr:
  assumes "threshold_check e config m st = Inr st'"
  shows "(py_gt (batch_size st) m = Inr False \<and> st' = st) \<or>
         (py_gt (batch_size st) m = Inr True \<and>
          (\<exists>sch req. schema st = Some sch \<and> requests st' = requests st @ [req] \<and>
             body req = \<lparr>batch_schema = sch,
                         table_name = config_get config ''table_name'' (JStr ''''),
                         batch_messages = messages st\<rparr>) \<and>
          (\<exists>text. stdout st' = stdout st @
             [Sending_batch (number_of_the_current_batch st), Response_body text]) \<and>
          st' = st\<lparr>stdout := stdout st', data := data st', requests := requests st',
                    messages := [],
                    timestamp := time_time e (time_calls st),
                    time_calls := Suc (time_calls st),
                    number_of_the_current_batch := number_of_the_current_batch st + 1,
                    batch_size := 0\<rparr>)"
  using assms unfolding threshold_check_def Let_def
  by (auto split: sum.splits if_splits option.splits dest!: post_data_Inr)

lemma final_flush_Inr:
  assumes "final_flush e config st = Inr (v, st')"
  shows "v = state st \<and>
         ((messages st = [] \<and> st' = st) \<or>
          (messages st \<noteq> [] \<and>
           (\<exists>sch req. schema st = Some sch \<and> requests st' = requests st @ [req] \<and>
              body req = \<lparr>batch_schema = sch,
                          table_name = config_get config ''table_name'' (JStr ''''),
                          batch_messages = messages st\<rparr>) \<and>
           (\<exists>text. stdout st' = stdout st @ [Response_body text]) \<and>
           st' = st\<lparr>data := data st', requests := requests st', stdout := stdout st'\<rparr>))"
  using assms unfolding final_flush_def Let_def
  by (auto split: sum.splits if_splits option.splits dest!: post_data_Inr)

lemma dispatch_Inr:
  assumes "dispatch e st line = Inr st'"
  shows "\<exists>v. json_loads e line = Inr v \<and>
           ((py_getitem v ''type'' = Inr (JStr ''RECORD'') \<and> handle_RECORD e v st = Inr st') \<or>
            (py_getitem v ''type'' = Inr (JStr ''STATE'') \<and> handle_STATE v st = Inr st') \<or>
            (py_getitem v ''type'' = Inr (JStr ''SCHEMA'') \<and> handle_SCHEMA e v st = Inr st'))"
  using assms unfolding dispatch_def
  by (auto split: sum.splits if_splits)

lemma iteration_Inr:
  assumes "iteration e config m st line = Inr st'"
  shows "\<exists>st1. dispatch e st line = Inr st1 \<and> threshold_check e config m st1 = Inr st'"
  using assms unfolding iteration_def by (auto split: sum.splits)

lemma loop_invariant:
  assumes "loop e config m st ls = Inr st'" and "P st"
    and "\<And>s l s'. P s \<Longrightarrow> iteration e config m s l = Inr s' \<Longrightarrow> P s'"
  shows "P st'"
  using assms(1,2)
proof (induction ls arbitrary: st)
  case Nil
  then show ?case by simp
next
  case (Cons l ls)
  then show ?case by (auto split: sum.splits intro: assms(3))
qed

subsection \<open>Windows are numbered from their base timestamp\<close>

lemma numbered_from_snoc:
  "numbered_from base ops \<Longrightarrow>
   numbered_from base (ops @ [\<lparr>action = a, record_data = r, sequence = base + (int (length ops) + 1)\<rparr>])"
  by (simp add: numbered_from_def)

lemma window_inv_dispatch:
  assumes "dispatch e st line = Inr st'" and "window_inv e st"
  shows "window_inv e st'"
proof -
  from dispatch_Inr [OF assms(1)] obtain v where
    "handle_RECORD e v st = Inr st' \<or> handle_STATE v st = Inr st' \<or> handle_SCHEMA e v st = Inr st'"
    by blast
  then show ?thesis
  proof (elim disjE)
    assume "handle_RECORD e v st = Inr st'"
    from handle_RECORD_Inr [OF this] assms(2) show ?thesis
      by (auto simp: window_inv_def window_def numbered_from_snoc)
  next
    assume "handle_STATE v st = Inr st'"
    from handle_STATE_Inr [OF this] assms(2) show ?thesis
      by (auto simp: window_inv_def window_def)
  next
    assume "handle_SCHEMA e v st = Inr st'"
    from handle_SCHEMA_Inr [OF this] assms(2) show ?thesis
      by (auto simp: window_inv_def window_def)
  qed
qed

lemma window_inv_threshold_check:
  assumes "threshold_check e config m st = Inr st'" and "window_inv e st"
  shows "window_inv e st'"
proof -
  from threshold_check_Inr [OF assms(1)] show ?thesis
  proof (elim disjE conjE exE)
    assume "st' = st"
    with assms(2) show ?thesis by simp
  next
    fix sch req resp
    assume r: "requests st' = requests st @ [req]"
      and b: "body req = \<lparr>batch_schema = sch,
                         table_name = config_get config ''table_name'' (JStr ''''),
                         batch_messages = messages st\<rparr>"
      and s: "st' = st\<lparr>stdout := stdout st', data := data st', requests := requests st',
                    messages := [],
                    timestamp := time_time e (time_calls st),
                    time_calls := Suc (time_calls st),
                    number_of_the_current_batch := number_of_the_current_batch st + 1,
                    batch_size := 0\<rparr>"
    have m: "messages st' = []" "batch_size st' = 0"
      "timestamp st' = time_time e (time_calls st)" "time_calls st' = Suc (time_calls st)"
      by (subst s, simp)+
    from assms(2) r b m show ?thesis
      by (auto simp: window_inv_def window_def nth_append less_Suc_eq numbered_from_def)
  qed
qed

lemma window_inv_initial: "window_inv e (initial e)"
  by (simp add: window_inv_def window_def initial_def numbered_from_def)

lemma window_inv_loop:
  assumes "loop e config m (initial e) ls = Inr st"
  shows "window_inv e st"
  by (rule loop_invariant [where P = "window_inv e", OF assms window_inv_initial])
     (auto dest!: iteration_Inr intro: window_inv_threshold_check window_inv_dispatch)

lemma numbered_from_nth:
  assumes "numbered_from base ops" and "n < length ops"
  shows "sequence (ops ! n) = base + int (Suc n)"
proof -
  have "map sequence ops ! n = map (\<lambda>n. base + int n) [1..<Suc (length ops)] ! n"
    using assms(1) by (simp add: numbered_from_def)
  with assms(2) show ?thesis by (simp add: nth_map del: upt_Suc)
qed

lemma numbered_from_sorted:
  assumes "numbered_from base ops"
  shows "sorted_wrt (<) (map sequence ops)"
proof -
  have "sorted_wrt (<) (map (\<lambda>n. base + int n) [1..<Suc (length ops)])"
    by (simp add: sorted_wrt_map del: upt_Suc)
  with assms show ?thesis by (simp add: numbered_from_def)
qed

lemma numbered_from_distinct:
  assumes "numbered_from base ops"
  shows "distinct (map sequence ops)"
  using numbered_from_sorted [OF assms] strict_sorted_iff by blast

subsection \<open>Decoding a blank line\<close>

lemma isspace_not_value_start: "py_isspace c \<Longrightarrow> \<not> value_start c"
  by (auto simp: py_isspace_def value_start_def)

lemma json_loads_blank:
  assumes "\<forall>c\<in>set line. py_isspace c"
  shows "json_loads e line = Inl JSONDecodeError"
proof (cases "dropWhile json_whitespace line")
  case Nil
  then show ?thesis by (simp add: json_loads_def del: dropWhile_eq_Nil_conv)
next
  case (Cons c cs)
  then have "c \<in> set (dropWhile json_whitespace line)" by simp
  then have "c \<in> set line" by (rule set_dropWhileD)
  with assms have "\<not> value_start c" by (simp add: isspace_not_value_start)
  with Cons show ?thesis by (simp add: json_loads_def)
qed

subsection \<open>A line whose message type is known\<close>

lemma py_getitem_in: "py_getitem v k = Inr x \<Longrightarrow> py_in k v = Inr True"
  by (cases v) (auto split: option.splits)

lemma py_in_False_getitem:
  "py_in k v = Inr False \<Longrightarrow> py_getitem v ''type'' = Inr t \<Longrightarrow> py_getitem v k = Inl (KeyError (JStr k))"
  by (cases v) (auto split: option.splits)

lemma dispatch_typed:
  assumes "json_loads e line = Inr v" and "py_getitem v ''type'' = Inr t"
  shows "dispatch e st line =
           (if t = JStr ''RECORD'' then handle_RECORD e v st
            else if t = JStr ''STATE'' then handle_STATE v st
            else if t = JStr ''SCHEMA'' then handle_SCHEMA e v st
            else Inl (Exception Unknown_message_type, st))"
  using assms by (simp add: dispatch_def py_getitem_in)

lemma abort_at_line:
  assumes "after_lines e config pre = Inr st" and "dispatch e st line = Inl err"
  shows "persist_lines e config (pre @ line # post) = Inl err"
  using assms by (simp add: persist_lines_def after_lines_def loop_append iteration_def)

subsection \<open>Where a registered schema comes from\<close>

lemma threshold_check_registry:
  assumes "threshold_check e config m st = Inr st'"
  shows "schemas st' = schemas st \<and> validators st' = validators st \<and>
         key_properties st' = key_properties st \<and> state st' = state st \<and> schema st' = schema st"
proof -
  from threshold_check_Inr [OF assms] show ?thesis
  proof (elim disjE conjE exE)
    assume "st' = st"
    then show ?thesis by simp
  next
    assume s: "st' = st\<lparr>stdout := stdout st', data := data st', requests := requests st',
                    messages := [],
                    timestamp := time_time e (time_calls st),
                    time_calls := Suc (time_calls st),
                    number_of_the_current_batch := number_of_the_current_batch st + 1,
                    batch_size := 0\<rparr>"
    show ?thesis by (subst s, simp)+
  qed
qed

lemma dispatch_schemas:
  assumes "dispatch e st l = Inr st'" and "map_of (schemas st') k \<noteq> None"
  shows "map_of (schemas st) k \<noteq> None \<or> declares e k l"
proof -
  from dispatch_Inr [OF assms(1)] obtain v where v: "json_loads e l = Inr v"
    and c: "handle_RECORD e v st = Inr st' \<or> handle_STATE v st = Inr st' \<or>
           (py_getitem v ''type'' = Inr (JStr ''SCHEMA'') \<and> handle_SCHEMA e v st = Inr st')"
    by blast
  from c show ?thesis
  proof (elim disjE conjE)
    assume "handle_RECORD e v st = Inr st'"
    from handle_RECORD_Inr [OF this] assms(2) show ?thesis by auto
  next
    assume "handle_STATE v st = Inr st'"
    from handle_STATE_Inr [OF this] assms(2) show ?thesis by auto
  next
    assume t: "py_getitem v ''type'' = Inr (JStr ''SCHEMA'')"
      and "handle_SCHEMA e v st = Inr st'"
    from handle_SCHEMA_Inr [OF this(2)] assms(2) v t show ?thesis
      by (auto simp: declares_def update_conv' split: if_splits)
  qed
qed

lemma loop_schemas:
  assumes "loop e config m st ls = Inr st'" and "map_of (schemas st') k \<noteq> None"
  shows "map_of (schemas st) k \<noteq> None \<or> (\<exists>l\<in>set ls. declares e k l)"
  using assms
proof (induction ls arbitrary: st)
  case Nil
  then show ?case by simp
next
  case (Cons l ls)
  from Cons.prems(1) obtain s1 s2 where d: "dispatch e st l = Inr s1"
    and t: "threshold_check e config m s1 = Inr s2" and r: "loop e config m s2 ls = Inr st'"
    by (auto simp: iteration_def split: sum.splits)
  from Cons.IH [OF r Cons.prems(2)] show ?case
  proof
    assume "map_of (schemas s2) k \<noteq> None"
    with threshold_check_registry [OF t] have "map_of (schemas s1) k \<noteq> None" by simp
    from dispatch_schemas [OF d this] show ?thesis by auto
  next
    assume "\<exists>l\<in>set ls. declares e k l"
    then show ?thesis by auto
  qed
qed

subsection \<open>The checkpoint and the lines written\<close>

lemma dispatch_state:
  assumes "dispatch e st l = Inr st'"
  shows "state st' =
           (if message_type e l = Some (JStr ''RECORD'') then JNull
            else if message_type e l = Some (JStr ''STATE'') then message_value e l
            else state st) \<and> stdout st' = stdout st"
proof -
  from dispatch_Inr [OF assms] obtain v where v: "json_loads e l = Inr v"
    and c: "(py_getitem v ''type'' = Inr (JStr ''RECORD'') \<and> handle_RECORD e v st = Inr st') \<or>
            (py_getitem v ''type'' = Inr (JStr ''STATE'') \<and> handle_STATE v st = Inr st') \<or>
            (py_getitem v ''type'' = Inr (JStr ''SCHEMA'') \<and> handle_SCHEMA e v st = Inr st')"
    by blast
  from c show ?thesis
  proof (elim disjE conjE)
    assume t: "py_getitem v ''type'' = Inr (JStr ''RECORD'')"
      and "handle_RECORD e v st = Inr st'"
    from handle_RECORD_Inr [OF this(2)] v t show ?thesis
      by (auto simp: message_type_def)
  next
    assume t: "py_getitem v ''type'' = Inr (JStr ''STATE'')"
      and "handle_STATE v st = Inr st'"
    from handle_STATE_Inr [OF this(2)] v t show ?thesis
      by (auto simp: message_type_def message_value_def)
  next
    assume t: "py_getitem v ''type'' = Inr (JStr ''SCHEMA'')"
      and "handle_SCHEMA e v st = Inr st'"
    from handle_SCHEMA_Inr [OF this(2)] v t show ?thesis
      by (auto simp: message_type_def)
  qed
qed

lemma threshold_check_stdout:
  assumes "threshold_check e config m st = Inr st'"
  shows "checkpoint_lines (stdout st') = checkpoint_lines (stdout st)"
  using threshold_check_Inr [OF assms] by (auto simp: checkpoint_lines_def)

lemma loop_state:
  assumes "loop e config m st ls = Inr st'"
  shows "state st' =
           (case rev (filter (state_affecting e) ls) of
              [] \<Rightarrow> state st
            | l # rest \<Rightarrow>
                if message_type e l = Some (JStr ''STATE'') then message_value e l else JNull)"
  using assms
proof (induction ls arbitrary: st)
  case Nil
  then show ?case by simp
next
  case (Cons l ls)
  from Cons.prems obtain s1 s2 where d: "dispatch e st l = Inr s1"
    and t: "threshold_check e config m s1 = Inr s2" and r: "loop e config m s2 ls = Inr st'"
    by (auto simp: iteration_def split: sum.splits)
  from dispatch_state [OF d] threshold_check_registry [OF t]
  have s2: "state s2 =
           (if message_type e l = Some (JStr ''RECORD'') then JNull
            else if message_type e l = Some (JStr ''STATE'') then message_value e l
            else state st)"
    by simp
  show ?case
    by (simp only: Cons.IH [OF r] s2)
       (auto simp: state_affecting_def split: list.splits)
qed

lemma loop_stdout:
  assumes "loop e config m st ls = Inr st'"
  shows "checkpoint_lines (stdout st') = checkpoint_lines (stdout st)"
  using assms
proof (induction ls arbitrary: st)
  case Nil
  then show ?case by simp
next
  case (Cons l ls)
  from Cons.prems obtain s1 s2 where d: "dispatch e st l = Inr s1"
    and t: "threshold_check e config m s1 = Inr s2" and r: "loop e config m s2 ls = Inr st'"
    by (auto simp: iteration_def split: sum.splits)
  from Cons.IH [OF r] threshold_check_stdout [OF t] dispatch_state [OF d]
  show ?case by simp
qed

subsection \<open>Every declared stream has a validator\<close>

lemma dispatch_validators:
  assumes "dispatch e st l = Inr st'" and "validators st = schemas st"
  shows "validators st' = schemas st'"
proof -
  from dispatch_Inr [OF assms(1)] obtain v where
    "handle_RECORD e v st = Inr st' \<or> handle_STATE v st = Inr st' \<or> handle_SCHEMA e v st = Inr st'"
    by blast
  then show ?thesis
  proof (elim disjE)
    assume "handle_RECORD e v st = Inr st'"
    from handle_RECORD_Inr [OF this] assms(2) show ?thesis by auto
  next
    assume "handle_STATE v st = Inr st'"
    from handle_STATE_Inr [OF this] assms(2) show ?thesis by auto
  next
    assume "handle_SCHEMA e v st = Inr st'"
    from handle_SCHEMA_Inr [OF this] assms(2) show ?thesis by auto
  qed
qed

lemma loop_validators:
  assumes "loop e config m (initial e) ls = Inr st"
  shows "validators st = schemas st"
proof (rule loop_invariant [where P = "\<lambda>s. validators s = schemas s", OF assms])
  show "validators (initial e) = schemas (initial e)" by (simp add: initial_def)
next
  fix s l s'
  assume "validators s = schemas s" and "iteration e config m s l = Inr s'"
  then obtain s1 where d: "dispatch e s l = Inr s1" "validators s1 = schemas s1"
    and t: "threshold_check e config m s1 = Inr s'"
    by (auto dest!: iteration_Inr dest: dispatch_validators)
  from threshold_check_registry [OF t] d(2) show "validators s' = schemas s'" by simp
qed

subsection \<open>Messages that are accepted\<close>

lemma dispatch_schema_message:
  assumes "schema_message e line k sch kp"
  shows "dispatch e st line =
           Inr (st\<lparr>schemas := AList.update k sch (schemas st),
                   validators := AList.update k sch (validators st),
                   key_properties := AList.update k kp (key_properties st)\<rparr>)"
proof -
  from assms obtain v s where v: "json_loads e line = Inr v"
    and t: "py_getitem v ''type'' = Inr (JStr ''SCHEMA'')"
    and s: "py_getitem v ''stream'' = Inr s" "py_hash s = Some k"
    and c: "py_getitem v ''schema'' = Inr sch" "Draft4Validator e sch = None"
    and p: "py_getitem v ''key_properties'' = Inr kp"
    by (auto simp: schema_message_def split: sum.splits)
  from s c p show ?thesis
    by (simp add: dispatch_typed [OF v t] handle_SCHEMA_def py_getitem_in)
qed

lemma dispatch_valid_record:
  assumes "valid_record_message e line k sch r"
    and "map_of (schemas st) k = Some sch" and "map_of (validators st) k = Some sch"
  shows "dispatch e st line =
           Inr (st\<lparr>schema := Some sch, batch_size := batch_size st + 1,
                   messages := messages st @
                     [\<lparr>action = ''upsert'', record_data = r,
                       sequence = timestamp st + (batch_size st + 1)\<rparr>],
                   state := JNull\<rparr>)"
proof -
  from assms(1) obtain v s where v: "json_loads e line = Inr v"
    and t: "py_getitem v ''type'' = Inr (JStr ''RECORD'')"
    and s: "py_getitem v ''stream'' = Inr s" "py_hash s = Some k"
    and c: "py_getitem v ''record'' = Inr r" "validate e sch r = None"
    by (auto simp: valid_record_message_def split: sum.splits)
  from s c assms(2,3) show ?thesis
    by (simp add: dispatch_typed [OF v t] handle_RECORD_def py_getitem_in Let_def)
qed

subsection \<open>The number of pending operations\<close>

lemma dispatch_messages:
  assumes "dispatch e st l = Inr st'"
  shows "messages st' = messages st \<or> (\<exists>op. messages st' = messages st @ [op])"
proof -
  from dispatch_Inr [OF assms(1)] obtain v where
    "handle_RECORD e v st = Inr st' \<or> handle_STATE v st = Inr st' \<or> handle_SCHEMA e v st = Inr st'"
    by blast
  then show ?thesis
  proof (elim disjE)
    assume "handle_RECORD e v st = Inr st'"
    from handle_RECORD_Inr [OF this] show ?thesis by auto
  next
    assume "handle_STATE v st = Inr st'"
    from handle_STATE_Inr [OF this] show ?thesis by auto
  next
    assume "handle_SCHEMA e v st = Inr st'"
    from handle_SCHEMA_Inr [OF this] show ?thesis by auto
  qed
qed

lemma threshold_check_pending:
  assumes "threshold_check e config (JInt m) st = Inr st'" and "window_inv e st"
  shows "if int (length (messages st)) > m
         then messages st' = [] \<and>
              (\<exists>req. requests st' = requests st @ [req] \<and> batch_messages (body req) = messages st)
         else st' = st"
proof -
  from assms(2) have b: "batch_size st = int (length (messages st))"
    by (simp add: window_inv_def)
  from threshold_check_Inr [OF assms(1)] show ?thesis
  proof (elim disjE conjE exE)
    assume "py_gt (batch_size st) (JInt m) = Inr False" and "st' = st"
    with b show ?thesis by simp
  next
    fix sch req resp
    assume g: "py_gt (batch_size st) (JInt m) = Inr True"
      and r: "requests st' = requests st @ [req]"
      and d: "body req = \<lparr>batch_schema = sch,
                         table_name = config_get config ''table_name'' (JStr ''''),
                         batch_messages = messages st\<rparr>"
      and s: "st' = st\<lparr>stdout := stdout st', data := data st', requests := requests st',
                    messages := [],
                    timestamp := time_time e (time_calls st),
                    time_calls := Suc (time_calls st),
                    number_of_the_current_batch := number_of_the_current_batch st + 1,
                    batch_size := 0\<rparr>"
    have "messages st' = []" by (subst s) simp
    with g b r d show ?thesis by simp
  qed
qed

lemma pending_bound_loop:
  assumes "loop e config (JInt m) (initial e) ls = Inr st" and "0 \<le> m"
  shows "window_inv e st \<and> int (length (messages st)) \<le> m"
proof (rule loop_invariant
    [where P = "\<lambda>s. window_inv e s \<and> int (length (messages s)) \<le> m", OF assms(1)])
  show "window_inv e (initial e) \<and> int (length (messages (initial e))) \<le> m"
    using assms(2) by (simp add: window_inv_initial) (simp add: initial_def)
next
  fix s l s'
  assume p: "window_inv e s \<and> int (length (messages s)) \<le> m"
    and i: "iteration e config (JInt m) s l = Inr s'"
  from iteration_Inr [OF i] obtain s1 where d: "dispatch e s l = Inr s1"
    and t: "threshold_check e config (JInt m) s1 = Inr s'"
    by blast
  from window_inv_dispatch [OF d] p have w1: "window_inv e s1" by simp
  from window_inv_threshold_check [OF t w1] have w: "window_inv e s'" .
  from threshold_check_pending [OF t w1] assms(2)
  have "int (length (messages s')) \<le> m"
    by (auto split: if_splits)
  with w show "window_inv e s' \<and> int (length (messages s')) \<le> m" by simp
qed

subsection \<open>Sequence numbers over a whole run\<close>

lemma numbered_from_range:
  assumes "numbered_from base ops" and "y \<in> set (map sequence ops)"
  shows "base < y \<and> y \<le> base + int (length ops)"
proof -
  from assms have "y \<in> set (map (\<lambda>n. base + int n) [1..<Suc (length ops)])"
    by (simp add: numbered_from_def)
  then show ?thesis by (auto simp del: upt_Suc)
qed

lemma persist_lines_windows:
  assumes "persist_lines e config lines = Inr (v, st)" and "k < length (requests st)"
  shows "numbered_from (time_time e k) (window st k)"
proof -
  from assms(1) obtain s where
    l: "loop e config (config_get config ''batch_size'' (JInt 1000)) (initial e) lines = Inr s"
    and f: "final_flush e config s = Inr (v, st)"
    by (auto simp: persist_lines_def split: sum.splits)
  from window_inv_loop [OF l] have w: "window_inv e s" .
  from final_flush_Inr [OF f] show ?thesis
  proof (elim disjE conjE exE)
    assume "st = s"
    with w assms(2) show ?thesis by (simp add: window_inv_def)
  next
    fix sch req
    assume r: "requests st = requests s @ [req]"
      and d: "body req = \<lparr>batch_schema = sch,
                         table_name = config_get config ''table_name'' (JStr ''''),
                         batch_messages = messages s\<rparr>"
    from w r d assms(2) show ?thesis
      by (auto simp: window_inv_def window_def nth_append less_Suc_eq)
  qed
qed

lemma submitted_prefix_sorted:
  assumes n: "\<And>k. k < length (requests st) \<Longrightarrow> numbered_from (time_time e k) (window st k)"
    and g: "\<And>k. Suc k < length (requests st) \<Longrightarrow>
              time_time e k + int (length (window st k)) \<le> time_time e (Suc k)"
  shows "j \<le> length (requests st) \<Longrightarrow>
         sorted_wrt (<) (concat (map (\<lambda>req. map sequence (batch_messages (body req)))
                                   (take j (requests st)))) \<and>
         (j < length (requests st) \<longrightarrow>
            (\<forall>x\<in>set (concat (map (\<lambda>req. map sequence (batch_messages (body req)))
                                   (take j (requests st)))). x \<le> time_time e j))"
proof (induction j)
  case 0
  then show ?case by simp
next
  case (Suc j)
  let ?f = "\<lambda>req. map sequence (batch_messages (body req))"
  from Suc.prems have j: "j < length (requests st)" by simp
  with Suc.IH have s: "sorted_wrt (<) (concat (map ?f (take j (requests st))))"
    and b: "\<forall>x\<in>set (concat (map ?f (take j (requests st)))). x \<le> time_time e j"
    by simp_all
  have t: "concat (map ?f (take (Suc j) (requests st))) =
           concat (map ?f (take j (requests st))) @ map sequence (window st j)"
    using j by (simp add: take_Suc_conv_app_nth window_def)
  note r = numbered_from_range [OF n [OF j]]
  have "sorted_wrt (<) (concat (map ?f (take (Suc j) (requests st))))"
    unfolding t using s b r numbered_from_sorted [OF n [OF j]]
    by (fastforce simp: sorted_wrt_append)
  moreover have "Suc j < length (requests st) \<longrightarrow>
      (\<forall>x\<in>set (concat (map ?f (take (Suc j) (requests st)))). x \<le> time_time e (Suc j))"
  proof (intro impI ballI)
    fix x
    assume "Suc j < length (requests st)"
      and "x \<in> set (concat (map ?f (take (Suc j) (requests st))))"
    then have "x \<in> set (concat (map ?f (take j (requests st)))) \<or>
               x \<in> set (map sequence (window st j))"
      and "time_time e j + int (length (window st j)) \<le> time_time e (Suc j)"
      unfolding t using g [of j] by auto
    with b r show "x \<le> time_time e (Suc j)" by fastforce
  qed
  ultimately show ?case by simp
qed

section \<open>The properties\<close>

text \<open>
  C1. When a run processes its whole input without an exception, the value that
  \<^verbatim>\<open>persist_lines\<close> returns is the value of the last \<^verbatim>\<open>STATE\<close> message if no
  \<^verbatim>\<open>RECORD\<close> message follows it, and \<^verbatim>\<open>None\<close> if a \<^verbatim>\<open>RECORD\<close> message is the last of
  the two kinds or if there is no \<^verbatim>\<open>STATE\<close> message; \<^verbatim>\<open>main\<close> writes that value as
  the only checkpoint line of the process, and writes no checkpoint line when the
  value is \<^verbatim>\<open>None\<close>.
\<close>

theorem emitted_checkpoint:
  assumes "persist_lines e config lines = Inr (v, st)"
  shows "v = most_recent_checkpoint e lines \<and>
         main e config lines = Inr (stdout st @ emit_state v) \<and>
         checkpoint_lines (stdout st @ emit_state v) = (if v = JNull then [] else [State_line v])"
proof -
  from assms obtain s where l: "loop e config (config_get config ''batch_size'' (JInt 1000)) (initial e) lines = Inr s"
    and f: "final_flush e config s = Inr (v, st)"
    by (auto simp: persist_lines_def split: sum.splits)
  from final_flush_Inr [OF f] have v: "v = state s"
    and out: "checkpoint_lines (stdout st) = checkpoint_lines (stdout s)"
    by (auto simp: checkpoint_lines_def)
  from loop_stdout [OF l] out have "checkpoint_lines (stdout st) = []"
    by (simp add: initial_def checkpoint_lines_def)
  then have "checkpoint_lines (stdout st @ emit_state v) = (if v = JNull then [] else [State_line v])"
    by (simp add: checkpoint_lines_def emit_state_def)
  moreover from loop_state [OF l] v have "v = most_recent_checkpoint e lines"
    by (simp add: most_recent_checkpoint_def initial_def split: list.splits)
  moreover from assms have "main e config lines = Inr (stdout st @ emit_state v)"
    by (simp add: main_def)
  ultimately show ?thesis by simp
qed

theorem emitted_checkpoint_witness:
  "most_recent_checkpoint example_env [schema_line, record_line_1, state_line] =
     JObj [(''bookmark'', JInt 1)] \<and>
   main example_env example_config [schema_line, record_line_1, state_line] =
     Inr [Response_body ''OK'', State_line (JObj [(''bookmark'', JInt 1)])] \<and>
   most_recent_checkpoint example_env [schema_line, state_line, record_line_1] = JNull \<and>
   main example_env example_config [schema_line, state_line, record_line_1] =
     Inr [Response_body ''OK'']"
proof -
  let ?a = "persist_lines example_env example_config [schema_line, record_line_1, state_line]"
  let ?b = "persist_lines example_env example_config [schema_line, state_line, record_line_1]"
  have a: "?a = Inr (JObj [(''bookmark'', JInt 1)], final_state ?a)"
    by code_simp
  have b: "?b = Inr (JNull, final_state ?b)"
    by code_simp
  have out: "stdout (final_state ?a) = [Response_body ''OK'']"
    "stdout (final_state ?b) = [Response_body ''OK'']"
    by code_simp+
  from emitted_checkpoint [OF a] emitted_checkpoint [OF b] out show ?thesis
    by (simp add: emit_state_def)
qed

text \<open>
  C2, as the claim states it, fails: with \<^verbatim>\<open>batch_size\<close> 1, the check that follows
  the second record finds two pending operations.
\<close>

theorem threshold_check_counterexample:
  "config_get example_config ''batch_size'' (JInt 1000) = JInt 1 \<and>
   \<not> isl (dispatch example_env
            (projr (after_lines example_env example_config [schema_line, record_line_1]))
            record_line_2) \<and>
   length (messages (projr (dispatch example_env
            (projr (after_lines example_env example_config [schema_line, record_line_1]))
            record_line_2))) = 2"
  by code_simp

text \<open>
  C2, amended. For a threshold \<open>m\<close> that is a non-negative integer: a line is read
  with at most \<open>m\<close> pending operations; the check that follows it finds at most
  \<open>m + 1\<close>; when it finds more than \<open>m\<close> and the run goes on, all of them have been
  sent in one request and none is pending, and otherwise the check changes nothing.
\<close>

theorem threshold_check_bound:
  assumes "config_get config ''batch_size'' (JInt 1000) = JInt m" and "0 \<le> m"
    and "after_lines e config pre = Inr st"
    and "dispatch e st line = Inr st1"
    and "threshold_check e config (JInt m) st1 = Inr st2"
  shows "int (length (messages st)) \<le> m \<and>
         int (length (messages st1)) \<le> m + 1 \<and>
         (if int (length (messages st1)) > m
          then messages st2 = [] \<and>
               (\<exists>req. requests st2 = requests st1 @ [req] \<and>
                      batch_messages (body req) = messages st1)
          else st2 = st1) \<and>
         int (length (messages st2)) \<le> m"
proof -
  from assms(1,3) have l: "loop e config (JInt m) (initial e) pre = Inr st"
    by (simp add: after_lines_def)
  from pending_bound_loop [OF l assms(2)] have w: "window_inv e st"
    and b: "int (length (messages st)) \<le> m"
    by simp_all
  from dispatch_messages [OF assms(4)] b have b1: "int (length (messages st1)) \<le> m + 1"
    by auto
  from window_inv_dispatch [OF assms(4) w] have w1: "window_inv e st1" .
  note f = threshold_check_pending [OF assms(5) w1]
  from f assms(2) have "int (length (messages st2)) \<le> m"
    by (auto split: if_splits)
  with b b1 f show ?thesis by simp
qed

theorem threshold_check_bound_witness:
  "length (messages (projr (after_lines example_env example_config
      [schema_line, record_line_1]))) = 1 \<and>
   length (messages (projr (dispatch example_env
      (projr (after_lines example_env example_config [schema_line, record_line_1]))
      record_line_2))) = 2 \<and>
   messages (projr (after_lines example_env example_config
      [schema_line, record_line_1, record_line_2])) = [] \<and>
   map (\<lambda>req. length (batch_messages (body req)))
     (requests (projr (after_lines example_env example_config
        [schema_line, record_line_1, record_line_2]))) = [2]"
proof -
  let ?st = "projr (after_lines example_env example_config [schema_line, record_line_1])"
  let ?st1 = "projr (dispatch example_env ?st record_line_2)"
  let ?st2 = "projr (after_lines example_env example_config
                [schema_line, record_line_1, record_line_2])"
  have h1: "config_get example_config ''batch_size'' (JInt 1000) = JInt 1"
    and h3: "after_lines example_env example_config [schema_line, record_line_1] = Inr ?st"
    and h4: "dispatch example_env ?st record_line_2 = Inr ?st1"
    and h5: "threshold_check example_env example_config (JInt 1) ?st1 = Inr ?st2"
    by code_simp+
  have h2: "(0::int) \<le> 1" by simp
  have c: "length (messages ?st) = 1" "length (messages ?st1) = 2" "requests ?st1 = []"
    by code_simp+
  from threshold_check_bound [OF h1 h2 h3 h4 h5] c show ?thesis
    by auto
qed

text \<open>
  C3, as the claim states it, fails: with \<^verbatim>\<open>batch_size\<close> 1, the check after the first
  record finds one pending operation, which does not exceed the threshold; the two
  records are submitted together.
\<close>

theorem two_records_threshold_one_counterexample:
  "raised (persist_lines example_env example_config
     [schema_line, record_line_1, record_line_2]) = None \<and>
   map (\<lambda>req. length (batch_messages (body req)))
     (requests (final_state (persist_lines example_env example_config
        [schema_line, record_line_1, record_line_2]))) = [2]"
  by code_simp

text \<open>
  C3, amended. With \<^verbatim>\<open>batch_size\<close> 1, a \<^verbatim>\<open>SCHEMA\<close> declaration followed by two
  valid \<^verbatim>\<open>RECORD\<close> messages of its stream, and a destination that answers the
  request: after the first record nothing has been sent and one operation is pending;
  the check that follows the second record sends one request, which holds both
  operations in their order, and leaves nothing pending, so that the flush at the end
  of the input sends nothing; the run returns \<^verbatim>\<open>None\<close>, and the process writes the
  batch line and the response, and no checkpoint line.
\<close>

theorem two_records_threshold_one:
  assumes "config_get config ''batch_size'' (JInt 1000) = JInt 1"
    and "config_get config ''token'' (JStr '''') = JStr tok"
    and "HTTPSConnection e (config_get config ''region_url'' (JStr '''')) = None"
    and "schema_message e l0 k sch kp"
    and "valid_record_message e l1 k sch r1"
    and "valid_record_message e l2 k sch r2"
    and "op1 = \<lparr>action = ''upsert'', record_data = r1, sequence = time_time e 0 + 1\<rparr>"
    and "op2 = \<lparr>action = ''upsert'', record_data = r2, sequence = time_time e 0 + 2\<rparr>"
    and "req = \<lparr>host = config_get config ''region_url'' (JStr ''''),
                path = config_get config ''batch_api_path'' (JStr ''''),
                authorization = ''Bearer '' @ tok,
                body = \<lparr>batch_schema = sch,
                         table_name = config_get config ''table_name'' (JStr ''''),
                         batch_messages = [op1, op2]\<rparr>\<rparr>"
    and "getresponse e 0 req = Inr resp"
  shows "after_lines e config [l0, l1] =
           Inr \<lparr>state = JNull, schemas = [(k, sch)], key_properties = [(k, kp)],
                validators = [(k, sch)], data = None, batch_size = 1,
                number_of_the_current_batch = 1, messages = [op1],
                timestamp = time_time e 0, schema = Some sch,
                time_calls = 1, requests = [], stdout = []\<rparr> \<and>
         after_lines e config [l0, l1, l2] =
           Inr \<lparr>state = JNull, schemas = [(k, sch)], key_properties = [(k, kp)],
                validators = [(k, sch)], data = Some (body req), batch_size = 0,
                number_of_the_current_batch = 2, messages = [],
                timestamp = time_time e 1, schema = Some sch,
                time_calls = 2, requests = [req],
                stdout = [Sending_batch 1, Response_body resp]\<rparr> \<and>
         persist_lines e config [l0, l1, l2] =
           Inr (JNull,
                \<lparr>state = JNull, schemas = [(k, sch)], key_properties = [(k, kp)],
                 validators = [(k, sch)], data = Some (body req), batch_size = 0,
                 number_of_the_current_batch = 2, messages = [],
                 timestamp = time_time e 1, schema = Some sch,
                 time_calls = 2, requests = [req],
                 stdout = [Sending_batch 1, Response_body resp]\<rparr>) \<and>
         main e config [l0, l1, l2] = Inr [Sending_batch 1, Response_body resp]"
proof -
  let ?s2 = "\<lparr>state = JNull, schemas = [(k, sch)], key_properties = [(k, kp)],
              validators = [(k, sch)], data = None, batch_size = 1,
              number_of_the_current_batch = 1, messages = [op1],
              timestamp = time_time e 0, schema = Some sch,
              time_calls = 1, requests = [], stdout = []\<rparr>"
  let ?s4 = "\<lparr>state = JNull, schemas = [(k, sch)], key_properties = [(k, kp)],
              validators = [(k, sch)], data = Some (body req), batch_size = 0,
              number_of_the_current_batch = 2, messages = [],
              timestamp = time_time e 1, schema = Some sch,
              time_calls = 2, requests = [req],
              stdout = [Sending_batch 1, Response_body resp]\<rparr>"
  note d0 = dispatch_schema_message [OF assms(4)]
  define s1 where "s1 = (initial e)\<lparr>schemas := [(k, sch)], validators := [(k, sch)],
                                    key_properties := [(k, kp)]\<rparr>"
  define s3 where "s3 = ?s2\<lparr>batch_size := 2, messages := [op1, op2]\<rparr>"
  have i1: "iteration e config (JInt 1) (initial e) l0 = Inr s1"
    by (simp add: iteration_def d0 s1_def initial_def threshold_check_def)
  have "dispatch e s1 l1 = Inr ?s2"
    by (simp add: dispatch_valid_record [OF assms(5)] s1_def initial_def assms(7))
  then have i2: "iteration e config (JInt 1) s1 l1 = Inr ?s2"
    by (simp add: iteration_def threshold_check_def)
  have "dispatch e ?s2 l2 = Inr s3"
    by (simp add: dispatch_valid_record [OF assms(6)] s3_def assms(8))
  moreover have "threshold_check e config (JInt 1) s3 = Inr ?s4"
    using assms(2,3,10)
    by (simp add: threshold_check_def post_data_def Let_def s3_def assms(9))
  ultimately have i3: "iteration e config (JInt 1) ?s2 l2 = Inr ?s4"
    by (simp add: iteration_def)
  have a2: "after_lines e config [l0, l1] = Inr ?s2"
    using i1 i2 assms(1) by (simp add: after_lines_def)
  have a4: "after_lines e config [l0, l1, l2] = Inr ?s4"
    using i1 i2 i3 assms(1) by (simp add: after_lines_def)
  have p: "persist_lines e config [l0, l1, l2] = Inr (JNull, ?s4)"
    using a4 by (simp add: persist_lines_def after_lines_def final_flush_def)
  have m: "main e config [l0, l1, l2] = Inr [Sending_batch 1, Response_body resp]"
    using p by (simp add: main_def emit_state_def)
  from a2 a4 p m show ?thesis by simp
qed

theorem two_records_threshold_one_witness:
  "requests (projr (after_lines example_env example_config
       [schema_line, record_line_1])) = [] \<and>
   messages (projr (after_lines example_env example_config [schema_line, record_line_1])) =
     [\<lparr>action = ''upsert'', record_data = JObj [(''id'', JInt 1)], sequence = 1500000001\<rparr>] \<and>
   map (\<lambda>req. batch_messages (body req))
     (requests (projr (after_lines example_env example_config
        [schema_line, record_line_1, record_line_2]))) =
     [[\<lparr>action = ''upsert'', record_data = JObj [(''id'', JInt 1)], sequence = 1500000001\<rparr>,
       \<lparr>action = ''upsert'', record_data = JObj [(''id'', JInt 2)], sequence = 1500000002\<rparr>]] \<and>
   messages (projr (after_lines example_env example_config
        [schema_line, record_line_1, record_line_2])) = [] \<and>
   requests (final_state (persist_lines example_env example_config
        [schema_line, record_line_1, record_line_2])) =
     requests (projr (after_lines example_env example_config
        [schema_line, record_line_1, record_line_2])) \<and>
   raised (persist_lines example_env example_config
        [schema_line, record_line_1, record_line_2]) = None \<and>
   main example_env example_config [schema_line, record_line_1, record_line_2] =
     Inr [Sending_batch 1, Response_body ''OK'']"
proof -
  let ?op1 = "\<lparr>action = ''upsert'', record_data = JObj [(''id'', JInt 1)],
               sequence = time_time example_env 0 + 1\<rparr>"
  let ?op2 = "\<lparr>action = ''upsert'', record_data = JObj [(''id'', JInt 2)],
               sequence = time_time example_env 0 + 2\<rparr>"
  let ?req = "\<lparr>host = config_get example_config ''region_url'' (JStr ''''),
               path = config_get example_config ''batch_api_path'' (JStr ''''),
               authorization = ''Bearer '' @ ''secret'',
               body = \<lparr>batch_schema = JObj [],
                        table_name = config_get example_config ''table_name'' (JStr ''''),
                        batch_messages = [?op1, ?op2]\<rparr>\<rparr>"
  have h1: "config_get example_config ''batch_size'' (JInt 1000) = JInt 1"
    and h2: "config_get example_config ''token'' (JStr '''') = JStr ''secret''"
    and h3: "HTTPSConnection example_env (config_get example_config ''region_url'' (JStr '''')) = None"
    by code_simp+
  have h4: "schema_message example_env schema_line (KStr ''users'') (JObj [])
              (JArr [JStr ''id''])"
    and h5: "valid_record_message example_env record_line_1 (KStr ''users'') (JObj [])
               (JObj [(''id'', JInt 1)])"
    and h6: "valid_record_message example_env record_line_2 (KStr ''users'') (JObj [])
               (JObj [(''id'', JInt 2)])"
    by code_simp+
  have h10: "getresponse example_env 0 ?req = Inr ''OK''"
    by (simp add: example_env_def)
  have t: "time_time example_env 0 = 1500000000"
    by (simp add: example_env_def)
  from two_records_threshold_one [OF h1 h2 h3 h4 h5 h6 refl refl refl h10] t
  show ?thesis by (simp add: raised_def final_state_def)
qed

text \<open>
  C4, as the claim states it, fails: the counter restarts at every flush, and when
  the clock has not advanced since the window began, the first operation of the next
  window is given the sequence number of the first operation of the last one.
\<close>

theorem sequence_numbers_repeat_counterexample:
  "raised (persist_lines fast_env example_config
       [schema_line, record_line_1, record_line_2, record_line_3]) = None \<and>
   submitted_sequences (final_state (persist_lines fast_env example_config
       [schema_line, record_line_1, record_line_2, record_line_3])) =
     [1500000001, 1500000002, 1500000001] \<and>
   \<not> distinct (submitted_sequences (final_state (persist_lines fast_env example_config
       [schema_line, record_line_1, record_line_2, record_line_3])))"
  by code_simp

text \<open>
  C4, amended. In a run that processes its whole input, the sequence numbers of all
  submitted operations are strictly increasing, hence pairwise distinct, provided
  that every reading of the clock after a flush is at least the base timestamp of the
  window just sent plus the number of its operations.
\<close>

theorem sequence_numbers_of_run:
  assumes "persist_lines e config lines = Inr (v, st)"
    and "\<forall>k. Suc k < length (requests st) \<longrightarrow>
           time_time e k + int (length (window st k)) \<le> time_time e (Suc k)"
  shows "sorted_wrt (<) (submitted_sequences st) \<and> distinct (submitted_sequences st)"
proof -
  have "sorted_wrt (<) (submitted_sequences st)"
    using submitted_prefix_sorted [of st e "length (requests st)"]
      persist_lines_windows [OF assms(1)] assms(2)
    by (simp add: submitted_sequences_def)
  then show ?thesis using strict_sorted_iff by blast
qed

theorem sequence_numbers_of_run_witness:
  "submitted_sequences (final_state (persist_lines example_env example_config
       [schema_line, record_line_1, record_line_2, record_line_3])) =
     [1500000001, 1500000002, 1500000011] \<and>
   distinct (submitted_sequences (final_state (persist_lines example_env example_config
       [schema_line, record_line_1, record_line_2, record_line_3])))"
proof -
  let ?r = "persist_lines example_env example_config
       [schema_line, record_line_1, record_line_2, record_line_3]"
  have h1: "?r = Inr (JNull, final_state ?r)"
    by code_simp
  have n: "length (requests (final_state ?r)) = 2"
    and w: "length (window (final_state ?r) 0) = 2"
    and s: "submitted_sequences (final_state ?r) = [1500000001, 1500000002, 1500000011]"
    by code_simp+
  have h2: "\<forall>k. Suc k < length (requests (final_state ?r)) \<longrightarrow>
           time_time example_env k + int (length (window (final_state ?r) k))
             \<le> time_time example_env (Suc k)"
  proof (intro allI impI)
    fix k
    assume "Suc k < length (requests (final_state ?r))"
    with n have "k = 0" by simp
    with w show "time_time example_env k + int (length (window (final_state ?r) k))
             \<le> time_time example_env (Suc k)"
      by (simp add: example_env_def)
  qed
  from sequence_numbers_of_run [OF h1 h2] s show ?thesis by simp
qed

text \<open>
  C5. A \<^verbatim>\<open>RECORD\<close> message whose stream no earlier line of the input declared makes
  the run abort with the exception of source line 63, in the state in which the line
  was read: no request is sent for the message, and the operations that were pending
  are not submitted.
\<close>

theorem record_before_schema_aborts:
  assumes "after_lines e config pre = Inr st"
    and "\<forall>l\<in>set pre. \<not> declares e k l"
    and "json_loads e line = Inr v"
    and "py_getitem v ''type'' = Inr (JStr ''RECORD'')"
    and "py_getitem v ''stream'' = Inr s"
    and "py_hash s = Some k"
  shows "persist_lines e config (pre @ line # post) =
           Inl (Exception Record_encountered_before_schema, st) \<and>
         requests (final_state (persist_lines e config (pre @ line # post))) = requests st"
proof -
  have "map_of (schemas st) k = None"
  proof (rule ccontr)
    assume "map_of (schemas st) k \<noteq> None"
    from loop_schemas [OF assms(1) [unfolded after_lines_def] this] assms(2)
    show False by (simp add: initial_def)
  qed
  with assms(4,5,6) have "dispatch e st line = Inl (Exception Record_encountered_before_schema, st)"
    by (simp add: dispatch_typed [OF assms(3,4)] handle_RECORD_def py_getitem_in)
  from abort_at_line [OF assms(1) this] show ?thesis by (simp add: final_state_def)
qed

theorem record_before_schema_aborts_witness:
  "persist_lines example_env example_config
     ([schema_line, record_line_1] @ orders_record_line # [state_line]) =
     Inl (Exception Record_encountered_before_schema,
          projr (after_lines example_env example_config [schema_line, record_line_1])) \<and>
   requests (final_state (persist_lines example_env example_config
     ([schema_line, record_line_1] @ orders_record_line # [state_line]))) = [] \<and>
   length (messages (projr (after_lines example_env example_config [schema_line, record_line_1]))) = 1"
proof -
  let ?pre = "[schema_line, record_line_1]"
  let ?v = "JObj [(''type'', JStr ''RECORD''), (''stream'', JStr ''orders''),
              (''record'', JObj [(''id'', JInt 7)])]"
  have h1: "after_lines example_env example_config ?pre =
            Inr (projr (after_lines example_env example_config ?pre))"
    by code_simp
  have h2: "\<forall>l\<in>set ?pre. \<not> declares example_env (KStr ''orders'') l"
    by code_simp
  have h3: "json_loads example_env orders_record_line = Inr ?v"
    by code_simp
  have h4: "py_getitem ?v ''type'' = Inr (JStr ''RECORD'')"
    and h5: "py_getitem ?v ''stream'' = Inr (JStr ''orders'')"
    and h6: "py_hash (JStr ''orders'') = Some (KStr ''orders'')"
    by simp_all
  have r: "requests (projr (after_lines example_env example_config ?pre)) = []"
    "length (messages (projr (after_lines example_env example_config ?pre))) = 1"
    by code_simp+
  from record_before_schema_aborts [OF h1 h2 h3 h4 h5 h6, of "[state_line]"] r
  show ?thesis by (simp add: final_state_def)
qed

text \<open>
  C6, as the claim states it, fails: the program hands the schema to the
  constructor of the validator and checks nothing itself, and the constructor stores
  a dict without checking it against the meta-schema. The schema \<^verbatim>\<open>{"type": 12}\<close> is not
  a valid schema document, and the run that declares it goes on to its end.
\<close>

theorem invalid_schema_accepted_counterexample:
  "raised (persist_lines example_env example_config
     [schema_line_type_12, state_line]) = None \<and>
   validators (final_state (persist_lines example_env example_config
     [schema_line_type_12, state_line])) = [(KStr ''users'', JObj [(''type'', JInt 12)])]"
  by code_simp

text \<open>
  C6, amended. When the constructor of the validator raises an exception for the
  schema of a \<^verbatim>\<open>SCHEMA\<close> message, the run aborts with that exception at the
  declaration, before any later line is processed; when the constructor returns, the
  declaration is registered whatever the schema is.
\<close>

theorem validator_construction:
  assumes "after_lines e config pre = Inr st"
    and "json_loads e line = Inr v"
    and "py_getitem v ''type'' = Inr (JStr ''SCHEMA'')"
    and "py_getitem v ''stream'' = Inr s"
    and "py_hash s = Some k"
    and "py_getitem v ''schema'' = Inr sch"
  shows "(case Draft4Validator e sch of
            Some err \<Rightarrow>
              persist_lines e config (pre @ line # post) =
                Inl (err, st\<lparr>schemas := AList.update k sch (schemas st)\<rparr>)
          | None \<Rightarrow>
              (case py_getitem v ''key_properties'' of
                 Inl err \<Rightarrow> True
               | Inr kp \<Rightarrow>
                   dispatch e st line =
                     Inr (st\<lparr>schemas := AList.update k sch (schemas st),
                             validators := AList.update k sch (validators st),
                             key_properties := AList.update k kp (key_properties st)\<rparr>)))"
proof (cases "Draft4Validator e sch")
  case (Some err)
  with assms(3-6) have "dispatch e st line =
      Inl (err, st\<lparr>schemas := AList.update k sch (schemas st)\<rparr>)"
    by (simp add: dispatch_typed [OF assms(2,3)] handle_SCHEMA_def py_getitem_in)
  from abort_at_line [OF assms(1) this] Some show ?thesis by simp
next
  case None
  with assms(3-6) show ?thesis
    by (auto simp: dispatch_typed [OF assms(2,3)] handle_SCHEMA_def py_getitem_in
        split: sum.splits)
qed

theorem validator_construction_witness:
  "persist_lines example_env example_config ([] @ schema_line_number # [record_line_1]) =
     Inl (OtherError ''AttributeError'',
          (initial example_env)\<lparr>schemas := [(KStr ''users'', JInt 5)]\<rparr>) \<and>
   dispatch example_env (initial example_env) schema_line_type_12 =
     Inr ((initial example_env)
           \<lparr>schemas := [(KStr ''users'', JObj [(''type'', JInt 12)])],
              validators := [(KStr ''users'', JObj [(''type'', JInt 12)])],
              key_properties := [(KStr ''users'', JArr [JStr ''id''])]\<rparr>)"
proof -
  let ?v = "JObj [(''type'', JStr ''SCHEMA''), (''stream'', JStr ''users''), (''schema'', JInt 5),
              (''key_properties'', JArr [JStr ''id''])]"
  let ?w = "JObj [(''type'', JStr ''SCHEMA''), (''stream'', JStr ''users''),
              (''schema'', JObj [(''type'', JInt 12)]),
              (''key_properties'', JArr [JStr ''id''])]"
  have h1: "after_lines example_env example_config [] = Inr (initial example_env)"
    by (simp add: after_lines_def)
  have h2: "json_loads example_env schema_line_number = Inr ?v"
    and g2: "json_loads example_env schema_line_type_12 = Inr ?w"
    by code_simp+
  have h3: "py_getitem ?v ''type'' = Inr (JStr ''SCHEMA'')"
    and h4: "py_getitem ?v ''stream'' = Inr (JStr ''users'')"
    and h5: "py_hash (JStr ''users'') = Some (KStr ''users'')"
    and h6: "py_getitem ?v ''schema'' = Inr (JInt 5)"
    and g3: "py_getitem ?w ''type'' = Inr (JStr ''SCHEMA'')"
    and g4: "py_getitem ?w ''stream'' = Inr (JStr ''users'')"
    and g6: "py_getitem ?w ''schema'' = Inr (JObj [(''type'', JInt 12)])"
    by simp_all
  have c: "Draft4Validator example_env (JInt 5) = Some (OtherError ''AttributeError'')"
    "Draft4Validator example_env (JObj [(''type'', JInt 12)]) = None"
    by code_simp+
  from validator_construction [OF h1 h2 h3 h4 h5 h6, of "[record_line_1]"]
    validator_construction [OF h1 g2 g3 g4 h5 g6, of "[]"] c
  show ?thesis by (simp add: initial_def)
qed

text \<open>
  C7, as the claim states it, fails: when the exception for the missing
  \<^verbatim>\<open>key_properties\<close> is raised, source lines 89 and 90 have already written the schema
  and the validator of the stream.
\<close>

theorem schema_without_key_properties_counterexample:
  "raised (persist_lines example_env example_config [schema_line_without_key_properties]) =
     Some (Exception Key_properties_field_is_required) \<and>
   schemas (initial example_env) = [] \<and>
   validators (initial example_env) = [] \<and>
   schemas (final_state (persist_lines example_env example_config
     [schema_line_without_key_properties])) = [(KStr ''users'', JObj [])] \<and>
   validators (final_state (persist_lines example_env example_config
     [schema_line_without_key_properties])) = [(KStr ''users'', JObj [])]"
  by code_simp

text \<open>
  C7, amended. A \<^verbatim>\<open>SCHEMA\<close> message that names a hashable stream, has a
  \<^verbatim>\<open>'schema'\<close> field whose validator is constructed without an exception, and has no
  \<^verbatim>\<open>key_properties\<close> field makes the run abort with the exception of source line 92;
  at the raise the schema and the validator of the stream have been written, and the
  key properties are as they were.
\<close>

theorem schema_without_key_properties:
  assumes "after_lines e config pre = Inr st"
    and "json_loads e line = Inr v"
    and "py_getitem v ''type'' = Inr (JStr ''SCHEMA'')"
    and "py_getitem v ''stream'' = Inr s"
    and "py_hash s = Some k"
    and "py_getitem v ''schema'' = Inr sch"
    and "Draft4Validator e sch = None"
    and "py_in ''key_properties'' v = Inr False"
  shows "persist_lines e config (pre @ line # post) =
           Inl (Exception Key_properties_field_is_required,
                st\<lparr>schemas := AList.update k sch (schemas st),
                   validators := AList.update k sch (validators st)\<rparr>) \<and>
         key_properties (final_state (persist_lines e config (pre @ line # post))) =
           key_properties st"
proof -
  from assms(3-8) have "dispatch e st line =
           Inl (Exception Key_properties_field_is_required,
                st\<lparr>schemas := AList.update k sch (schemas st),
                   validators := AList.update k sch (validators st)\<rparr>)"
    by (simp add: dispatch_typed [OF assms(2,3)] handle_SCHEMA_def py_getitem_in)
  from abort_at_line [OF assms(1) this] show ?thesis by (simp add: final_state_def)
qed

theorem schema_without_key_properties_witness:
  "persist_lines example_env example_config
     ([schema_line, record_line_1] @ schema_line_without_key_properties # [state_line]) =
     Inl (Exception Key_properties_field_is_required,
          projr (after_lines example_env example_config [schema_line, record_line_1]))"
proof -
  let ?pre = "[schema_line, record_line_1]"
  let ?v = "JObj [(''type'', JStr ''SCHEMA''), (''stream'', JStr ''users''), (''schema'', JObj [])]"
  let ?st = "projr (after_lines example_env example_config ?pre)"
  have h1: "after_lines example_env example_config ?pre = Inr ?st"
    by code_simp
  have h2: "json_loads example_env schema_line_without_key_properties = Inr ?v"
    by code_simp
  have h3: "py_getitem ?v ''type'' = Inr (JStr ''SCHEMA'')"
    and h4: "py_getitem ?v ''stream'' = Inr (JStr ''users'')"
    and h5: "py_hash (JStr ''users'') = Some (KStr ''users'')"
    and h6: "py_getitem ?v ''schema'' = Inr (JObj [])"
    and h8: "py_in ''key_properties'' ?v = Inr False"
    by simp_all
  have h7: "Draft4Validator example_env (JObj []) = None"
    by code_simp
  have same: "?st\<lparr>schemas := AList.update (KStr ''users'') (JObj []) (schemas ?st),
                   validators := AList.update (KStr ''users'') (JObj []) (validators ?st)\<rparr> = ?st"
    by code_simp
  from schema_without_key_properties [OF h1 h2 h3 h4 h5 h6 h7 h8, of "[state_line]"] same
  show ?thesis by simp
qed

text \<open>
  C8. At every moment of a run between two lines, the \<open>n\<close>-th operation of the
  pending window, counted from one, has the sequence number of the window's base
  timestamp plus \<open>n\<close>, and so has the \<open>n\<close>-th operation of every window already
  submitted, whose base timestamp is the \<open>k\<close>-th reading of the clock for the
  \<open>k\<close>-th request; the sequence numbers of a window are therefore strictly
  increasing and pairwise distinct. The flush at the end of the input submits the
  pending window as it is.
\<close>

theorem window_sequence_numbers:
  assumes "after_lines e config pre = Inr st"
  shows "(\<forall>n<length (messages st). sequence (messages st ! n) = timestamp st + int (Suc n)) \<and>
         sorted_wrt (<) (map sequence (messages st)) \<and>
         distinct (map sequence (messages st)) \<and>
         timestamp st = time_time e (length (requests st)) \<and>
         (\<forall>k<length (requests st).
            (\<forall>n<length (window st k). sequence (window st k ! n) = time_time e k + int (Suc n)) \<and>
            sorted_wrt (<) (map sequence (window st k)) \<and>
            distinct (map sequence (window st k)))"
proof -
  have inv: "window_inv e st"
    using assms unfolding after_lines_def by (rule window_inv_loop)
  then have pending: "numbered_from (timestamp st) (messages st)"
    and base: "timestamp st = time_time e (length (requests st))"
    and sent: "\<And>k. k < length (requests st) \<Longrightarrow> numbered_from (time_time e k) (window st k)"
    by (auto simp: window_inv_def)
  show ?thesis
    using base numbered_from_nth [OF pending] numbered_from_sorted [OF pending]
      numbered_from_distinct [OF pending] numbered_from_nth [OF sent]
      numbered_from_sorted [OF sent] numbered_from_distinct [OF sent]
    by blast
qed

theorem window_sequence_numbers_witness:
  "map sequence (window (projr (after_lines example_env example_config
       [schema_line, record_line_1, record_line_2, record_line_3])) 0) =
     [1500000001, 1500000002] \<and>
   map sequence (messages (projr (after_lines example_env example_config
       [schema_line, record_line_1, record_line_2, record_line_3]))) = [1500000011]"
proof -
  let ?r = "after_lines example_env example_config
       [schema_line, record_line_1, record_line_2, record_line_3]"
  have h: "?r = Inr (projr ?r)" by code_simp
  have l: "length (requests (projr ?r)) = 1" "length (messages (projr ?r)) = 1"
    "length (window (projr ?r) 0) = 2" "timestamp (projr ?r) = 1500000010" by code_simp+
  from window_sequence_numbers [OF h] l show ?thesis
    by (simp add: list_eq_iff_nth_eq less_Suc_eq numeral_2_eq_2 example_env_def)
qed

text \<open>
  C9. A line that is empty or holds only whitespace is handed to the decoder like
  any other line: when the run reaches it, the run aborts with the decoder's
  \<^verbatim>\<open>JSONDecodeError\<close>, in the state in which the line was read, and no later line is
  processed.
\<close>

theorem blank_line_aborts:
  assumes "\<forall>c\<in>set line. py_isspace c" and "after_lines e config pre = Inr st"
  shows "persist_lines e config (pre @ line # post) = Inl (JSONDecodeError, st)"
  using assms(2) json_loads_blank [OF assms(1), of e]
  by (simp add: persist_lines_def after_lines_def loop_append iteration_def dispatch_def)

theorem blank_line_aborts_witness:
  "persist_lines example_env example_config ([schema_line] @ blank_line # [record_line_1]) =
     Inl (JSONDecodeError, projr (after_lines example_env example_config [schema_line]))"
proof -
  have h1: "\<forall>c\<in>set blank_line. py_isspace c"
    by (simp add: blank_line_def py_isspace_def)
  have h2: "after_lines example_env example_config [schema_line] =
            Inr (projr (after_lines example_env example_config [schema_line]))"
    by code_simp
  from blank_line_aborts [OF h1 h2] show ?thesis by simp
qed

text \<open>
  C10. A \<^verbatim>\<open>RECORD\<close> message that names a declared stream and has no
  \<^verbatim>\<open>'record'\<close> field makes the run abort with the \<^verbatim>\<open>KeyError\<close> of the lookup
  \<^verbatim>\<open>o['record']\<close> at source line 69, which is none of the exceptions the program
  raises itself; the schema of the stream has been read into \<open>schema\<close> by then, and
  nothing has been appended to the pending operations.
\<close>

theorem record_without_record_field:
  assumes "after_lines e config pre = Inr st"
    and "json_loads e line = Inr v"
    and "py_getitem v ''type'' = Inr (JStr ''RECORD'')"
    and "py_getitem v ''stream'' = Inr s"
    and "py_hash s = Some k"
    and "map_of (schemas st) k = Some sch"
    and "py_in ''record'' v = Inr False"
  shows "persist_lines e config (pre @ line # post) =
           Inl (KeyError (JStr ''record''), st\<lparr>schema := Some sch\<rparr>) \<and>
         messages (final_state (persist_lines e config (pre @ line # post))) = messages st"
proof -
  have "validators st = schemas st"
    using assms(1) unfolding after_lines_def by (rule loop_validators)
  with assms(3-7) have "dispatch e st line = Inl (KeyError (JStr ''record''), st\<lparr>schema := Some sch\<rparr>)"
    by (simp add: dispatch_typed [OF assms(2,3)] handle_RECORD_def py_getitem_in
        py_in_False_getitem [OF assms(7,3)])
  from abort_at_line [OF assms(1) this] show ?thesis by (simp add: final_state_def)
qed

theorem record_without_record_field_witness:
  "raised (persist_lines example_env example_config
     ([schema_line, record_line_1] @ record_line_without_record # [state_line])) =
     Some (KeyError (JStr ''record'')) \<and>
   map record_data (messages (final_state (persist_lines example_env example_config
     ([schema_line, record_line_1] @ record_line_without_record # [state_line])))) =
     [JObj [(''id'', JInt 1)]]"
proof -
  let ?pre = "[schema_line, record_line_1]"
  let ?v = "JObj [(''type'', JStr ''RECORD''), (''stream'', JStr ''users'')]"
  let ?st = "projr (after_lines example_env example_config ?pre)"
  have h1: "after_lines example_env example_config ?pre = Inr ?st"
    by code_simp
  have h2: "json_loads example_env record_line_without_record = Inr ?v"
    by code_simp
  have h3: "py_getitem ?v ''type'' = Inr (JStr ''RECORD'')"
    and h4: "py_getitem ?v ''stream'' = Inr (JStr ''users'')"
    and h5: "py_hash (JStr ''users'') = Some (KStr ''users'')"
    and h7: "py_in ''record'' ?v = Inr False"
    by simp_all
  have h6: "map_of (schemas ?st) (KStr ''users'') = Some (JObj [])"
    by code_simp
  have m: "map record_data (messages ?st) = [JObj [(''id'', JInt 1)]]"
    by code_simp
  from record_without_record_field [OF h1 h2 h3 h4 h5 h6 h7, of "[state_line]"] m
  show ?thesis by (simp add: raised_def final_state_def)
qed

end
